theory Spec2Isabelle
  imports Complex_Main "HOL-Library.Log_Nat" "HOL-Library.Sublist"
begin

section \<open>JavaScript numbers\<close>

text \<open>
  Every \<open>number\<close> of the source is an IEEE-754 binary64 value. The integers the services
  compute with (token counts, timestamps in milliseconds, attempt counters, HTTP status
  codes) are modelled as \<open>int\<close>; they are exact below \<open>2 ^ 53\<close>. Where the source
  divides or multiplies (\<open>elapsed / 60000 * requestsPerMinute\<close>, \<open>60000 / requestsPerMinute\<close>,
  \<open>parseInt(h) * 1000\<close>) the result of each operation is rounded to the nearest binary64
  value, ties to even; \<open>fl\<close> is that rounding, for magnitudes in the normal range
  (overflow to \<open>Infinity\<close> above \<open>2 ^ 1024\<close> and subnormal results are not modelled).
\<close>

definition round_half_even :: "int \<Rightarrow> int \<Rightarrow> int" where
  "round_half_even num den =
     (let d = num div den; r = num mod den
      in if 2 * r < den then d
         else if den < 2 * r then d + 1
         else if even d then d else d + 1)"

text \<open>\<open>fl_pos a q\<close> rounds the positive fraction \<open>a / q\<close> to 53 significant bits.\<close>

definition fl_pos :: "int \<Rightarrow> int \<Rightarrow> rat" where
  "fl_pos a q =
     (let k = bitlen a - bitlen q;
          e = (if (if 0 \<le> k then q * 2 ^ nat k \<le> a else q \<le> a * 2 ^ nat (- k)) then k else k - 1);
          s = 52 - e
      in if 0 \<le> s
         then of_int (round_half_even (a * 2 ^ nat s) q) / 2 ^ nat s
         else of_int (round_half_even a (q * 2 ^ nat (- s))) * 2 ^ nat (- s))"

definition fl :: "rat \<Rightarrow> rat" where
  "fl x = (case quotient_of x of (p, q) \<Rightarrow>
             if p = 0 then 0 else if 0 < p then fl_pos p q else - fl_pos (- p) q)"

text \<open>
  A \<open>number\<close> that may also be \<open>NaN\<close> (from \<open>parseInt\<close>) or \<open>Infinity\<close> (from a division
  by zero). The model does not tell \<open>-0\<close> from \<open>0\<close>.
\<close>

datatype jsnum = Num rat | NaN | Infinity

section \<open>RateLimiter\<close>

record RateLimiterConfig =
  requestsPerMinute :: int
  burstLimit :: int
  queueTimeout :: int

record RateLimitResult =
  allowed :: bool
  remaining :: int
  retryAfter :: "jsnum option"
  error :: "string option"

text \<open>
  An entry of the wait queue. The \<open>resolve\<close> and \<open>reject\<close> callbacks are modelled by the
  identity of the waiting caller; calling \<open>resolve\<close> appends the pair of that identity
  and the result to the \<open>resolved\<close> log of the limiter, which is not a field of the
  class but the trace of its effect on the callers.
\<close>

record QueueItem =
  waiter :: nat
  timestamp :: int

record RateLimiter =
  config :: RateLimiterConfig
  tokens :: int
  lastRefillTime :: int
  queue :: "QueueItem list"
  refillInterval :: bool
  resolved :: "(nat \<times> RateLimitResult) list"

text \<open>
  The constructor, called with the input configuration (\<open>queueTimeout\<close> optional) at
  time \<open>now\<close> (the value of \<open>Date.now()\<close>). \<open>refillInterval\<close> is \<open>True\<close> while the
  one-second interval timer is armed.
\<close>

definition constructor :: "int \<Rightarrow> int \<Rightarrow> int option \<Rightarrow> int \<Rightarrow> RateLimiter" where
  "constructor rpm burst qto now =
     \<lparr> config = \<lparr> requestsPerMinute = rpm, burstLimit = burst,
                  queueTimeout = (case qto of None \<Rightarrow> 30000
                                  | Some t \<Rightarrow> if t = 0 then 30000 else t) \<rparr>,
       tokens = burst,
       lastRefillTime = now,
       queue = [],
       refillInterval = True,
       resolved = [] \<rparr>"

text \<open>The \<open>while\<close> loop of \<open>processQueue\<close>, by recursion on the queue.\<close>

function processQueue :: "RateLimiter \<Rightarrow> RateLimiter" where
  "processQueue s =
     (case queue s of
        [] \<Rightarrow> s
      | item # rest \<Rightarrow>
          if 0 < tokens s
          then processQueue
                 (s\<lparr> queue := rest,
                     tokens := tokens s - 1,
                     resolved := resolved s @
                       [(waiter item, \<lparr> allowed = True, remaining = tokens s - 1,
                                         retryAfter = None, error = None \<rparr>)] \<rparr>)
          else s)"
  by pat_completeness auto
termination
  by (relation "measure (\<lambda>s. length (queue s))") auto

declare processQueue.simps [simp del]

definition tokensToAdd :: "RateLimiter \<Rightarrow> int \<Rightarrow> rat" where
  "tokensToAdd s now =
     fl (fl (of_int (now - lastRefillTime s) / 60000) * of_int (requestsPerMinute (config s)))"

definition refillTokens :: "int \<Rightarrow> RateLimiter \<Rightarrow> RateLimiter" where
  "refillTokens now s =
     (if 1 \<le> tokensToAdd s now
      then processQueue
             (s\<lparr> tokens := min (burstLimit (config s)) (tokens s + \<lfloor>tokensToAdd s now\<rfloor>),
                 lastRefillTime := now \<rparr>)
      else s)"

definition calculateRetryAfter :: "RateLimiter \<Rightarrow> jsnum" where
  "calculateRetryAfter s =
     (if 0 < tokens s then Num 0
      else if requestsPerMinute (config s) = 0 then Infinity
      else Num (of_int \<lceil>fl (1 * fl (60000 / of_int (requestsPerMinute (config s))))\<rceil>))"

definition acquireToken :: "int \<Rightarrow> RateLimiter \<Rightarrow> RateLimitResult \<times> RateLimiter" where
  "acquireToken now s0 =
     (let s = refillTokens now s0
      in if 0 < tokens s
         then (\<lparr> allowed = True, remaining = tokens s - 1, retryAfter = None, error = None \<rparr>,
               s\<lparr> tokens := tokens s - 1 \<rparr>)
         else (\<lparr> allowed = False, remaining = 0, retryAfter = Some (calculateRetryAfter s),
                  error = Some ''RATE_LIMITED'' \<rparr>, s))"

definition getQueueSize :: "RateLimiter \<Rightarrow> nat" where
  "getQueueSize s = length (queue s)"

record RateLimitStats =
  stats_requestsPerMinute :: int
  stats_burstLimit :: int
  currentTokens :: int
  queueSize :: nat
  stats_lastRefillTime :: int

definition getStats :: "RateLimiter \<Rightarrow> RateLimitStats" where
  "getStats s =
     \<lparr> stats_requestsPerMinute = requestsPerMinute (config s),
       stats_burstLimit = burstLimit (config s),
       currentTokens = tokens s,
       queueSize = length (queue s),
       stats_lastRefillTime = lastRefillTime s \<rparr>"

definition destroy :: "RateLimiter \<Rightarrow> RateLimiter" where
  "destroy s =
     s\<lparr> refillInterval := False,
        resolved := resolved s @
          map (\<lambda>item. (waiter item, \<lparr> allowed = False, remaining = 0, retryAfter = None,
                                      error = Some ''RATE_LIMITER_DESTROYED'' \<rparr>)) (queue s),
        queue := [] \<rparr>"

text \<open>
  What can happen to a limiter after its construction: a call of a public method at the
  time \<open>Date.now()\<close> returns, or a firing of the interval timer, which calls
  \<open>refillTokens\<close> as long as the timer has not been cleared.
\<close>

datatype limiter_op = AcquireToken int | Tick int | GetStats | GetQueueSize | Destroy

fun limiter_step :: "RateLimiter \<Rightarrow> limiter_op \<Rightarrow> RateLimiter" where
  "limiter_step s (AcquireToken now) = snd (acquireToken now s)"
| "limiter_step s (Tick now) = (if refillInterval s then refillTokens now s else s)"
| "limiter_step s GetStats = s"
| "limiter_step s GetQueueSize = s"
| "limiter_step s Destroy = destroy s"

definition limiter_run :: "RateLimiter \<Rightarrow> limiter_op list \<Rightarrow> RateLimiter" where
  "limiter_run s ops = foldl limiter_step s ops"

text \<open>A sequence of \<open>acquireToken\<close> calls, at the given times, with their results.\<close>

fun acquire_all :: "int list \<Rightarrow> RateLimiter \<Rightarrow> RateLimitResult list \<times> RateLimiter" where
  "acquire_all [] s = ([], s)"
| "acquire_all (now # rest) s =
     (case acquireToken now s of (r, s1) \<Rightarrow>
        (case acquire_all rest s1 of (rs, s2) \<Rightarrow> (r # rs, s2)))"

definition token_inv :: "RateLimiter \<Rightarrow> bool" where
  "token_inv s = (0 \<le> tokens s \<and> tokens s \<le> burstLimit (config s))"

definition idle_queue :: "RateLimiter \<Rightarrow> bool" where
  "idle_queue s = (queue s = [] \<and> resolved s = [])"



section \<open>Strings\<close>

text \<open>\<open>String.prototype.includes\<close>, \<open>Number.prototype.toString\<close> on integers, and \<open>parseInt\<close>
  with no radix argument: leading white space is skipped, then an optional sign, then
  the prefix \<open>0x\<close> selects radix 16, and the longest run of digits of the radix is read;
  if there is none the result is \<open>NaN\<close>. A \<open>char\<close> is one byte: the white space is that
  of Latin-1 (tab, line feed, vertical tab, form feed, carriage return, space, no-break
  space), which is what a header value can hold.\<close>

fun str_includes :: "string \<Rightarrow> string \<Rightarrow> bool" where
  "str_includes [] pat = (pat = [])"
| "str_includes (c # cs) pat = (prefix pat (c # cs) \<or> str_includes cs pat)"

fun nat_toString :: "nat \<Rightarrow> string" where
  "nat_toString n =
     (if n < 10 then [''0123456789'' ! n]
      else nat_toString (n div 10) @ [''0123456789'' ! (n mod 10)])"

declare nat_toString.simps [simp del]

definition toString :: "int \<Rightarrow> string" where
  "toString i = (if i < 0 then CHR ''-'' # nat_toString (nat (- i)) else nat_toString (nat i))"

definition isWhiteSpace :: "char \<Rightarrow> bool" where
  "isWhiteSpace c =
     (c = CHR 0x09 \<or> c = CHR 0x0A \<or> c = CHR 0x0B \<or> c = CHR 0x0C \<or> c = CHR 0x0D \<or>
      c = CHR 0x20 \<or> c = CHR 0xA0)"

definition digit_value :: "char \<Rightarrow> nat option" where
  "digit_value c =
     (let n = (of_char c :: nat)
      in if 48 \<le> n \<and> n \<le> 57 then Some (n - 48)
         else if 97 \<le> n \<and> n \<le> 122 then Some (n - 87)
         else if 65 \<le> n \<and> n \<le> 90 then Some (n - 55)
         else None)"

definition radix_digit :: "nat \<Rightarrow> char \<Rightarrow> bool" where
  "radix_digit R c = (case digit_value c of Some d \<Rightarrow> d < R | None \<Rightarrow> False)"

definition radix_value :: "nat \<Rightarrow> string \<Rightarrow> nat" where
  "radix_value R z =
     foldl (\<lambda>acc c. acc * R + (case digit_value c of Some d \<Rightarrow> d | None \<Rightarrow> 0)) 0 z"

definition parseInt :: "string \<Rightarrow> jsnum" where
  "parseInt str =
     (let s = dropWhile isWhiteSpace str;
          neg = (case s of c # _ \<Rightarrow> c = CHR ''-'' | [] \<Rightarrow> False);
          s1 = (case s of c # cs \<Rightarrow> if c = CHR ''+'' \<or> c = CHR ''-'' then cs else s | [] \<Rightarrow> s);
          hex = (case s1 of c0 # c1 # _ \<Rightarrow> c0 = CHR ''0'' \<and> (c1 = CHR ''x'' \<or> c1 = CHR ''X'')
                 | _ \<Rightarrow> False);
          R = (if hex then 16 else 10);
          s2 = (if hex then drop 2 s1 else s1);
          z = takeWhile (radix_digit R) s2
      in if z = [] then NaN
         else if neg then Num (- fl (of_nat (radix_value R z)))
         else Num (fl (of_nat (radix_value R z))))"

text \<open>The product of a parsed number and an integer constant, as \<open>*\<close> computes it.\<close>

fun js_times :: "jsnum \<Rightarrow> rat \<Rightarrow> jsnum" where
  "js_times (Num x) k = Num (fl (x * k))"
| "js_times NaN k = NaN"
| "js_times Infinity k = (if k = 0 then NaN else Infinity)"

section \<open>ObsidianHttpClient\<close>

text \<open>
  What the client reads of a response. \<open>json\<close> is the result of the \<open>json\<close> getter of
  the response, which throws when the body is not JSON; of a JSON object the client
  reads the fields \<open>message\<close> and \<open>errorMessages\<close> only (strings when present). A value
  thrown by the transport, by the construction of the request or by the getter is read
  through its \<open>message\<close> and \<open>status\<close>. Time stamps of the error objects are left out.
\<close>

record ErrorData =
  ed_message :: "string option"
  ed_errorMessages :: "string list option"

datatype Thrown = Thrown (thrown_message: "string option") (thrown_status: "int option")

datatype JsonBody = JsonThrows Thrown | JsonFalsy | JsonObject ErrorData

record Response =
  status :: int
  headers :: "string \<Rightarrow> string option"
  json :: JsonBody
  body_text :: string

datatype JiraServiceError =
    AuthenticationError string int
  | RateLimitError string "jsnum option" "jsnum option" "jsnum option"
  | JiraApiError int string string "string list option"
  | Rejected Thrown
  | Undefined

text \<open>
  \<open>AuthenticationError message status\<close>; \<open>RateLimitError message retryAfter limit remaining\<close>;
  \<open>JiraApiError status statusText message errorMessages\<close>; \<open>Rejected\<close> is a value the
  client did not build itself; \<open>Undefined\<close> is the value of \<open>lastError\<close> before any
  assignment.
\<close>

fun error_message :: "JiraServiceError \<Rightarrow> string option" where
  "error_message (AuthenticationError m st) = Some m"
| "error_message (RateLimitError m ra li re) = Some m"
| "error_message (JiraApiError st stt m ems) = Some m"
| "error_message (Rejected t) = thrown_message t"
| "error_message Undefined = None"

fun error_status :: "JiraServiceError \<Rightarrow> int option" where
  "error_status (AuthenticationError m st) = Some st"
| "error_status (RateLimitError m ra li re) = None"
| "error_status (JiraApiError st stt m ems) = Some st"
| "error_status (Rejected t) = thrown_status t"
| "error_status Undefined = None"

definition errorData_of :: "Response \<Rightarrow> ErrorData" where
  "errorData_of r =
     (case json r of
        JsonThrows t \<Rightarrow>
          \<lparr> ed_message = Some (if body_text r \<noteq> [] then body_text r else toString (status r)),
            ed_errorMessages = None \<rparr>
      | JsonFalsy \<Rightarrow> \<lparr> ed_message = None, ed_errorMessages = None \<rparr>
      | JsonObject d \<Rightarrow> d)"

text \<open>\<open>errorData.message || errorData.errorMessages?.[0] || fallback\<close>\<close>

definition message_or :: "ErrorData \<Rightarrow> string \<Rightarrow> string" where
  "message_or d fallback =
     (let second = (case ed_errorMessages d of
                      Some (m # rest) \<Rightarrow> if m \<noteq> [] then m else fallback
                    | _ \<Rightarrow> fallback)
      in case ed_message d of
           Some m \<Rightarrow> if m \<noteq> [] then m else second
         | None \<Rightarrow> second)"

text \<open>\<open>response.headers[name] || fallback\<close>\<close>

definition header_or :: "Response \<Rightarrow> string \<Rightarrow> string \<Rightarrow> string" where
  "header_or r name fallback =
     (case headers r name of Some v \<Rightarrow> if v \<noteq> [] then v else fallback | None \<Rightarrow> fallback)"

definition handleErrorResponse :: "Response \<Rightarrow> JiraServiceError" where
  "handleErrorResponse r =
     (let errorData = errorData_of r
      in if status r = 401 \<or> status r = 403
         then AuthenticationError (message_or errorData ''Authentication failed'') (status r)
         else if status r = 429
         then RateLimitError ''Rate limit exceeded''
                (Some (js_times (parseInt (header_or r ''retry-after'' ''60'')) 1000))
                (Some (parseInt (header_or r ''x-ratelimit-limit'' ''100'')))
                (Some (parseInt (header_or r ''x-ratelimit-remaining'' ''0'')))
         else JiraApiError (status r) (toString (status r))
                (message_or errorData ''API error occurred'') (ed_errorMessages errorData))"

definition isRetryableError :: "JiraServiceError \<Rightarrow> bool" where
  "isRetryableError e =
     (if e = Undefined then False
      else if (case error_message e of
                 Some m \<Rightarrow> str_includes m ''network'' \<or> str_includes m ''timeout''
               | None \<Rightarrow> False) then True
      else if (case error_status e of Some st \<Rightarrow> 500 \<le> st | None \<Rightarrow> False) then True
      else False)"

definition calculateRetryDelay :: "int \<Rightarrow> int" where
  "calculateRetryDelay attempt = min (1000 * 2 ^ nat attempt) 30000"

record HttpClientConfig =
  baseUrl :: string
  email :: string
  apiToken :: string
  timeout :: int
  maxRetries :: int

definition newObsidianHttpClient ::
  "string \<Rightarrow> string \<Rightarrow> string \<Rightarrow> int option \<Rightarrow> int option \<Rightarrow> HttpClientConfig" where
  "newObsidianHttpClient url mail token tmo retr =
     \<lparr> baseUrl = url, email = mail, apiToken = token,
       timeout = (case tmo of Some t \<Rightarrow> t | None \<Rightarrow> 30000),
       maxRetries = (case retr of Some n \<Rightarrow> n | None \<Rightarrow> 3) \<rparr>"

text \<open>Of the request options the retry loop reads \<open>retries\<close>; requests here carry no
  query parameters, so \<open>buildUrl\<close> only resolves the path against the base URL.\<close>

record RequestOptions =
  retries :: "int option"

definition buildUrl :: "HttpClientConfig \<Rightarrow> string \<Rightarrow> string" where
  "buildUrl cfg path = (if prefix ''http'' path then path else baseUrl cfg @ path)"

text \<open>
  The environment of one call of \<open>request\<close>: for each attempt, what happens inside the
  \<open>try\<close> block up to the arrival of a response. Either building the request throws
  (\<open>btoa\<close>, \<open>JSON.stringify\<close>) and the transport is not called, or \<open>requestUrl\<close> is called and
  rejects, or it is called and answers.
\<close>

datatype attempt_outcome = BuildFails Thrown | TransportThrows Thrown | Responds Response

datatype ResponseBody = JsonValue "ErrorData option" | TextValue string

text \<open>The observable events of a request: a call of the limiter's \<open>acquireToken\<close>, a call of
  the transport, a sleep of the given number of milliseconds.\<close>

datatype event = AcquireEv | TransportEv | SleepEv int

datatype try_result = Returned ResponseBody | RetryNext | Raised JiraServiceError

text \<open>The body of the \<open>try\<close> block for one attempt, given what the attempt meets.\<close>

definition try_body :: "int \<Rightarrow> int \<Rightarrow> attempt_outcome \<Rightarrow> try_result" where
  "try_body maxR attempt out =
     (case out of
        BuildFails t \<Rightarrow> Raised (Rejected t)
      | TransportThrows t \<Rightarrow> Raised (Rejected t)
      | Responds r \<Rightarrow>
          if 200 \<le> status r \<and> status r < 300
          then (if (case headers r ''content-type'' of
                      Some ct \<Rightarrow> str_includes ct ''application/json'' | None \<Rightarrow> False)
                then (case json r of
                        JsonThrows t \<Rightarrow> Raised (Rejected t)
                      | JsonFalsy \<Rightarrow> Returned (JsonValue None)
                      | JsonObject d \<Rightarrow> Returned (JsonValue (Some d)))
                else Returned (TextValue (body_text r)))
          else if 400 \<le> status r \<and> status r < 500 then Raised (handleErrorResponse r)
          else if attempt < maxR \<and> 500 \<le> status r then RetryNext
          else Raised (handleErrorResponse r))"

definition transport_events :: "attempt_outcome \<Rightarrow> event list" where
  "transport_events out = (case out of BuildFails t \<Rightarrow> [] | _ \<Rightarrow> [TransportEv])"

text \<open>
  The \<open>for\<close> loop of \<open>request\<close>. An error raised in the \<open>try\<close> block, also by the
  block's own \<open>throw\<close> statements, is caught by the \<open>catch\<close> clause of the same
  statement, which rethrows it at the last attempt or when \<open>isRetryableError\<close> is false,
  and otherwise sleeps and continues. The loop is left without a return or a throw only
  when \<open>maxRetries\<close> is negative; \<open>lastError\<close> is then unassigned.
\<close>

function request_loop ::
  "int \<Rightarrow> (nat \<Rightarrow> attempt_outcome) \<Rightarrow> int \<Rightarrow> (JiraServiceError + ResponseBody) \<times> event list" where
  "request_loop maxR env attempt =
     (if attempt \<le> maxR
      then (case try_body maxR attempt (env (nat attempt)) of
              Returned b \<Rightarrow> (Inr b, transport_events (env (nat attempt)))
            | RetryNext \<Rightarrow>
                (case request_loop maxR env (attempt + 1) of
                   (res, evs) \<Rightarrow>
                     (res, transport_events (env (nat attempt))
                             @ SleepEv (calculateRetryDelay attempt) # evs))
            | Raised e \<Rightarrow>
                if maxR \<le> attempt then (Inl e, transport_events (env (nat attempt)))
                else if isRetryableError e
                then (case request_loop maxR env (attempt + 1) of
                        (res, evs) \<Rightarrow>
                          (res, transport_events (env (nat attempt))
                                  @ SleepEv (calculateRetryDelay attempt) # evs))
                else (Inl e, transport_events (env (nat attempt))))
      else (Inl Undefined, []))"
  by pat_completeness auto
termination
  by (relation "measure (\<lambda>(maxR, env, attempt). nat (maxR + 1 - attempt))") auto

declare request_loop.simps [simp del]

text \<open>The environment of the client: what each attempt of a request with the given method
  and URL meets.\<close>

type_synonym transport = "string \<Rightarrow> string \<Rightarrow> nat \<Rightarrow> attempt_outcome"

text \<open>\<open>options.retries ?? this.config.maxRetries\<close>\<close>

definition maxRetries_of :: "HttpClientConfig \<Rightarrow> RequestOptions \<Rightarrow> int" where
  "maxRetries_of cfg options = (case retries options of Some n \<Rightarrow> n | None \<Rightarrow> maxRetries cfg)"

definition request ::
  "HttpClientConfig \<Rightarrow> string \<Rightarrow> string \<Rightarrow> RequestOptions \<Rightarrow> transport
     \<Rightarrow> (JiraServiceError + ResponseBody) \<times> event list" where
  "request cfg method url options env =
     request_loop (maxRetries_of cfg options) (env method (buildUrl cfg url)) 0"

definition get ::
  "HttpClientConfig \<Rightarrow> string \<Rightarrow> RequestOptions \<Rightarrow> transport
     \<Rightarrow> (JiraServiceError + ResponseBody) \<times> event list" where
  "get cfg url options env = request cfg ''GET'' url options env"

section \<open>JiraApiService\<close>

definition checkRateLimit :: "int \<Rightarrow> RateLimiter \<Rightarrow> (JiraServiceError + unit) \<times> RateLimiter" where
  "checkRateLimit now rl =
     (case acquireToken now rl of
        (rateLimitResult, rl') \<Rightarrow>
          if \<not> allowed rateLimitResult
          then (Inl (RateLimitError ''Rate limit exceeded'' (retryAfter rateLimitResult) None None), rl')
          else (Inr (), rl'))"

text \<open>
  The function \<open>getIssue\<close> hands to \<open>deduplicateRequest\<close>: one logical request. It is run
  at time \<open>now\<close> with the limiter \<open>rl\<close>; the result is the settlement of its promise,
  the trace of its events and the limiter afterwards.
\<close>

definition getIssue_request ::
  "HttpClientConfig \<Rightarrow> transport \<Rightarrow> string \<Rightarrow> int \<Rightarrow> RateLimiter
     \<Rightarrow> ((JiraServiceError + ResponseBody) \<times> event list) \<times> RateLimiter" where
  "getIssue_request cfg env issueIdOrKey now rl =
     (case checkRateLimit now rl of
        (Inl e, rl') \<Rightarrow> ((Inl e, [AcquireEv]), rl')
      | (Inr u, rl') \<Rightarrow>
          (case get cfg (''/rest/api/3/issue/'' @ issueIdOrKey) \<lparr> retries = None \<rparr> env of
             (res, evs) \<Rightarrow> ((res, AcquireEv # evs), rl')))"

text \<open>
  The claim that every transport attempt has its own token acquisition before it, as a
  predicate on traces: \<open>own_acquisition n evs\<close> holds when each transport call of \<open>evs\<close>
  can use up one acquisition that precedes it, \<open>n\<close> acquisitions being unused at the start.
\<close>

fun own_acquisition :: "nat \<Rightarrow> event list \<Rightarrow> bool" where
  "own_acquisition n [] = True"
| "own_acquisition n (AcquireEv # evs) = own_acquisition (Suc n) evs"
| "own_acquisition n (TransportEv # evs) = (0 < n \<and> own_acquisition (n - 1) evs)"
| "own_acquisition n (SleepEv d # evs) = own_acquisition n evs"

definition transport_calls :: "event list \<Rightarrow> nat" where
  "transport_calls evs = length (filter (\<lambda>e. e = TransportEv) evs)"

definition acquisitions :: "event list \<Rightarrow> nat" where
  "acquisitions evs = length (filter (\<lambda>e. e = AcquireEv) evs)"

section \<open>Request deduplication\<close>

text \<open>
  \<open>deduplicateRequest\<close> runs on the single thread of the event loop: the test of the
  map, the call of \<open>requestFn\<close>, the registration of the \<open>finally\<close> callback and the
  \<open>set\<close> happen in one uninterrupted step. What happens later happens in steps of
  its own: the promise returned by \<open>requestFn\<close> settles, and afterwards, as a job of its
  own, the \<open>finally\<close> callback runs and deletes the key. The promise stored in the map and
  handed to the callers (\<open>requestPromise\<close>) takes over the settlement of the promise of
  \<open>requestFn\<close> once the callback has run.

  Calling \<open>requestFn\<close> either returns a promise, pending or already settled, or throws.
  An \<open>async\<close> function always returns a promise.
\<close>

datatype ('v, 'e) settlement = Fulfilled 'v | RejectedWith 'e

datatype ('v, 'e) requestFn = ReturnsPromise "('v, 'e) settlement option" | ThrowsSync 'e

text \<open>One call of a wrapped function that returned a promise: the key it was made for,
  the settlement of its promise so far, and whether its \<open>finally\<close> callback has run.\<close>

record ('v, 'e) inflight =
  req_key :: string
  inner :: "('v, 'e) settlement option"
  cleaned :: bool

text \<open>What a caller of \<open>deduplicateRequest\<close> holds: the \<open>requestPromise\<close> of a call of a
  wrapped function, or a promise rejected with what the wrapped function threw.\<close>

datatype 'e handle = Shared nat | Failed 'e

text \<open>The map of the service, the calls of wrapped functions so far (a promise is named
  by its position), and the log of the keys whose wrapped function was invoked.\<close>

record ('v, 'e) dedup =
  requestDeduplicationMap :: "string \<Rightarrow> nat option"
  requests :: "('v, 'e) inflight list"
  invoked :: "string list"

definition dedup_init :: "('v, 'e) dedup" where
  "dedup_init = \<lparr> requestDeduplicationMap = (\<lambda>k. None), requests = [], invoked = [] \<rparr>"

definition deduplicateRequest ::
  "string \<Rightarrow> ('v, 'e) requestFn \<Rightarrow> ('v, 'e) dedup \<Rightarrow> 'e handle \<times> ('v, 'e) dedup" where
  "deduplicateRequest cacheKey requestFn s =
     (case requestDeduplicationMap s cacheKey of
        Some i \<Rightarrow> (Shared i, s)
      | None \<Rightarrow>
          (case requestFn of
             ThrowsSync e \<Rightarrow> (Failed e, s\<lparr> invoked := invoked s @ [cacheKey] \<rparr>)
           | ReturnsPromise st \<Rightarrow>
               (Shared (length (requests s)),
                s\<lparr> invoked := invoked s @ [cacheKey],
                   requests := requests s @ [\<lparr> req_key = cacheKey, inner = st, cleaned = False \<rparr>],
                   requestDeduplicationMap :=
                     (requestDeduplicationMap s)(cacheKey := Some (length (requests s))) \<rparr>)))"

text \<open>The promise of call \<open>i\<close> settles (a settled promise stays as it is).\<close>

definition settle :: "nat \<Rightarrow> ('v, 'e) settlement \<Rightarrow> ('v, 'e) dedup \<Rightarrow> ('v, 'e) dedup" where
  "settle i out s =
     (if i < length (requests s) \<and> inner (requests s ! i) = None
      then s\<lparr> requests := (requests s)[i := (requests s ! i)\<lparr> inner := Some out \<rparr>] \<rparr>
      else s)"

text \<open>The \<open>finally\<close> callback of call \<open>i\<close> runs, once, after its promise has settled:
  \<open>this.requestDeduplicationMap.delete(cacheKey)\<close>.\<close>

definition cleanup :: "nat \<Rightarrow> ('v, 'e) dedup \<Rightarrow> ('v, 'e) dedup" where
  "cleanup i s =
     (if i < length (requests s) \<and> inner (requests s ! i) \<noteq> None \<and> \<not> cleaned (requests s ! i)
      then s\<lparr> requestDeduplicationMap :=
                 (requestDeduplicationMap s)(req_key (requests s ! i) := None),
               requests := (requests s)[i := (requests s ! i)\<lparr> cleaned := True \<rparr>] \<rparr>
      else s)"

text \<open>\<open>JiraApiService.destroy\<close>, as far as the map is concerned.\<close>

definition destroyService :: "('v, 'e) dedup \<Rightarrow> ('v, 'e) dedup" where
  "destroyService s = s\<lparr> requestDeduplicationMap := (\<lambda>k. None) \<rparr>"

text \<open>The settlement a caller observes through its handle, if any yet.\<close>

fun settlement_of :: "('v, 'e) dedup \<Rightarrow> 'e handle \<Rightarrow> ('v, 'e) settlement option" where
  "settlement_of s (Failed e) = Some (RejectedWith e)"
| "settlement_of s (Shared i) =
     (if i < length (requests s) \<and> cleaned (requests s ! i) then inner (requests s ! i) else None)"

datatype ('v, 'e) dedup_event =
    Call string "('v, 'e) requestFn"
  | Settle nat "('v, 'e) settlement"
  | Cleanup nat
  | DestroyService

text \<open>A run of events; the result lists, for each call of \<open>deduplicateRequest\<close>, its key and
  the handle the caller got.\<close>

fun dedup_run ::
  "('v, 'e) dedup \<Rightarrow> ('v, 'e) dedup_event list \<Rightarrow> (string \<times> 'e handle) list \<times> ('v, 'e) dedup" where
  "dedup_run s [] = ([], s)"
| "dedup_run s (Call k f # evs) =
     (case deduplicateRequest k f s of
        (h, s1) \<Rightarrow> (case dedup_run s1 evs of (hs, s2) \<Rightarrow> ((k, h) # hs, s2)))"
| "dedup_run s (Settle i out # evs) = dedup_run (settle i out s) evs"
| "dedup_run s (Cleanup i # evs) = dedup_run (cleanup i s) evs"
| "dedup_run s (DestroyService # evs) = dedup_run (destroyService s) evs"


text \<open>Every entry of the map belongs to a call of its key whose \<open>finally\<close> callback has not
  run yet.\<close>

definition entries_pending :: "('v, 'e) dedup \<Rightarrow> bool" where
  "entries_pending s =
     (\<forall>k i. requestDeduplicationMap s k = Some i \<longrightarrow>
        i < length (requests s) \<and> req_key (requests s ! i) = k \<and> \<not> cleaned (requests s ! i))"

section \<open>Inputs of the scenarios\<close>


text \<open>A transport that gives the same response to every attempt of every request.\<close>

definition always :: "Response \<Rightarrow> transport" where
  "always r = (\<lambda>method url n. Responds r)"

text \<open>A client built with the default \<open>maxRetries\<close> of 3.\<close>

definition client3 :: HttpClientConfig where
  "client3 = newObsidianHttpClient ''https://jira.example'' ''user@example'' ''token'' None None"

definition resp503 :: Response where
  "resp503 = \<lparr> status = 503, headers = (\<lambda>name. None), json = JsonFalsy,
               body_text = ''Service Unavailable'' \<rparr>"


text \<open>A 401 response whose JSON body is \<open>{"message": "Session timeout"}\<close>.\<close>

definition resp401_timeout :: Response where
  "resp401_timeout =
     \<lparr> status = 401, headers = (\<lambda>name. None),
       json = JsonObject \<lparr> ed_message = Some ''Session timeout'', ed_errorMessages = None \<rparr>,
       body_text = [] \<rparr>"


section \<open>Properties of the RateLimiter\<close>

subsection \<open>Rounding at the values the scenarios use\<close>

lemma fl_zero: "fl 0 = 0"
  by (simp add: fl_def)

lemma fl_1000: "fl 1000 = 1000"
  by code_simp

subsection \<open>The queue loop and the refill\<close>

lemma processQueue_empty: "queue s = [] \<Longrightarrow> processQueue s = s"
  by (simp add: processQueue.simps)

lemma processQueue_bounds:
  "0 \<le> tokens s \<Longrightarrow> tokens s \<le> b \<Longrightarrow>
   0 \<le> tokens (processQueue s) \<and> tokens (processQueue s) \<le> b"
proof (induction s rule: processQueue.induct)
  case (1 s)
  show ?case
  proof (cases "queue s")
    case Nil
    with 1 show ?thesis by (simp add: processQueue.simps)
  next
    case (Cons item rest)
    show ?thesis
    proof (cases "0 < tokens s")
      case True
      with Cons 1 show ?thesis by (subst (1 2) processQueue.simps) simp
    next
      case False
      with Cons 1 show ?thesis by (simp add: processQueue.simps)
    qed
  qed
qed

lemma processQueue_config: "config (processQueue s) = config s"
proof (induction s rule: processQueue.induct)
  case (1 s)
  show ?case
  proof (cases "queue s")
    case Nil
    then show ?thesis by (simp add: processQueue.simps)
  next
    case (Cons item rest)
    with 1 show ?thesis by (subst processQueue.simps) simp
  qed
qed

lemma refillTokens_config: "config (refillTokens now s) = config s"
  by (simp add: refillTokens_def processQueue_config)

lemma floor_ge_one: "1 \<le> (x::rat) \<Longrightarrow> 1 \<le> \<lfloor>x\<rfloor>"
  by linarith

lemma tokensToAdd_same_time: "lastRefillTime s = now \<Longrightarrow> tokensToAdd s now = 0"
  by (simp add: tokensToAdd_def fl_zero)

lemma refillTokens_same_time: "lastRefillTime s = now \<Longrightarrow> refillTokens now s = s"
  by (simp add: refillTokens_def tokensToAdd_same_time)

lemma refillTokens_inv: "token_inv s \<Longrightarrow> token_inv (refillTokens now s)"
proof -
  assume inv: "token_inv s"
  show ?thesis
  proof (cases "1 \<le> tokensToAdd s now")
    case False
    with inv show ?thesis by (simp add: refillTokens_def)
  next
    case True
    let ?s' = "s\<lparr> tokens := min (burstLimit (config s)) (tokens s + \<lfloor>tokensToAdd s now\<rfloor>),
                   lastRefillTime := now \<rparr>"
    from True have "1 \<le> \<lfloor>tokensToAdd s now\<rfloor>" by (rule floor_ge_one)
    with inv have "0 \<le> tokens ?s'" "tokens ?s' \<le> burstLimit (config s)"
      by (simp_all add: token_inv_def)
    then have "0 \<le> tokens (processQueue ?s') \<and> tokens (processQueue ?s') \<le> burstLimit (config s)"
      by (rule processQueue_bounds)
    with True show ?thesis
      by (simp add: refillTokens_def token_inv_def processQueue_config)
  qed
qed

lemma acquireToken_inv: "token_inv s \<Longrightarrow> token_inv (snd (acquireToken now s))"
  using refillTokens_inv [of s now]
  by (auto simp add: acquireToken_def Let_def token_inv_def)

lemma limiter_step_inv: "token_inv s \<Longrightarrow> token_inv (limiter_step s x)"
  by (cases x) (auto simp add: acquireToken_inv refillTokens_inv, simp add: token_inv_def destroy_def)

lemma limiter_run_inv: "token_inv s \<Longrightarrow> token_inv (limiter_run s ops)"
  unfolding limiter_run_def
  by (induction ops arbitrary: s) (simp_all add: limiter_step_inv)

lemma limiter_step_config: "config (limiter_step s x) = config s"
  by (cases x) (simp_all add: acquireToken_def Let_def refillTokens_config destroy_def)

lemma limiter_run_config: "config (limiter_run s ops) = config s"
  unfolding limiter_run_def
  by (induction ops arbitrary: s) (simp_all add: limiter_step_config)

subsection \<open>Token bound\<close>

text \<open>
  Claim C3. Starting from the constructed limiter (\<open>tokens = burstLimit\<close>, with a burst
  limit that is not negative), after every sequence of \<open>acquireToken\<close> calls, timer
  refills and the other public operations, at whatever times they happen, the token
  count is between 0 and the burst limit. The sequence is arbitrary, so the bound holds
  at every point of a run: \<open>acquireToken\<close> never takes the count below 0 and the refill
  never raises it above the burst limit.
\<close>

theorem token_bound:
  assumes "0 \<le> burst"
  shows "0 \<le> tokens (limiter_run (constructor rpm burst qto t0) ops) \<and>
         tokens (limiter_run (constructor rpm burst qto t0) ops) \<le> burst"
proof -
  from assms have "token_inv (constructor rpm burst qto t0)"
    by (simp add: token_inv_def constructor_def)
  then have "token_inv (limiter_run (constructor rpm burst qto t0) ops)"
    by (rule limiter_run_inv)
  moreover have "burstLimit (config (limiter_run (constructor rpm burst qto t0) ops)) = burst"
    by (simp add: limiter_run_config constructor_def)
  ultimately show ?thesis by (simp add: token_inv_def)
qed

theorem token_bound_witness:
  "(0::int) \<le> 2 \<and>
   0 \<le> tokens (limiter_run (constructor 60 2 None 0)
                  [AcquireToken 0, AcquireToken 10, AcquireToken 20, Tick 1000, Tick 5000]) \<and>
   tokens (limiter_run (constructor 60 2 None 0)
             [AcquireToken 0, AcquireToken 10, AcquireToken 20, Tick 1000, Tick 5000]) \<le> 2"
  using token_bound [of 2 60 None 0
      "[AcquireToken 0, AcquireToken 10, AcquireToken 20, Tick 1000, Tick 5000]"]
  by simp

subsection \<open>Burst, then throttle\<close>

text \<open>
  Claim C8. A limiter built with a burst limit of 5 and 60 requests per minute, asked
  six times for a token at the very time of its construction (no time elapses), grants
  the first five requests and denies the sixth with \<open>retryAfter = 1000\<close>, which is
  \<open>ceil(60000 / 60)\<close>. \<open>acquireToken\<close> has no error result: a denial is a returned value.
\<close>

theorem burst_then_throttle:
  "fst (acquire_all [t, t, t, t, t, t] (constructor 60 5 qto t)) =
     [\<lparr> allowed = True, remaining = 4, retryAfter = None, error = None \<rparr>,
      \<lparr> allowed = True, remaining = 3, retryAfter = None, error = None \<rparr>,
      \<lparr> allowed = True, remaining = 2, retryAfter = None, error = None \<rparr>,
      \<lparr> allowed = True, remaining = 1, retryAfter = None, error = None \<rparr>,
      \<lparr> allowed = True, remaining = 0, retryAfter = None, error = None \<rparr>,
      \<lparr> allowed = False, remaining = 0, retryAfter = Some (Num 1000),
         error = Some ''RATE_LIMITED'' \<rparr>]"
  by (simp add: constructor_def acquireToken_def refillTokens_same_time Let_def
        calculateRetryAfter_def fl_1000)

subsection \<open>The wait queue stays empty\<close>

lemma refillTokens_idle: "idle_queue s \<Longrightarrow> idle_queue (refillTokens now s)"
  by (simp add: idle_queue_def refillTokens_def processQueue_empty)

lemma acquireToken_idle: "idle_queue s \<Longrightarrow> idle_queue (snd (acquireToken now s))"
  using refillTokens_idle [of s now]
  by (simp add: acquireToken_def Let_def idle_queue_def)

lemma limiter_step_idle: "idle_queue s \<Longrightarrow> idle_queue (limiter_step s x)"
  by (cases x) (auto simp add: acquireToken_idle refillTokens_idle, simp_all add: idle_queue_def destroy_def)

lemma limiter_run_idle: "idle_queue s \<Longrightarrow> idle_queue (limiter_run s ops)"
  unfolding limiter_run_def
  by (induction ops arbitrary: s) (simp_all add: limiter_step_idle)

text \<open>
  Claim C10. In every state the limiter reaches from its construction, by any sequence
  of \<open>acquireToken\<close>, \<open>getStats\<close>, \<open>getQueueSize\<close>, \<open>destroy\<close> and timer refills, the wait
  queue is empty: \<open>getQueueSize\<close> and the \<open>queueSize\<close> of \<open>getStats\<close> are 0, and no
  \<open>resolve\<close> callback has been called, neither by \<open>processQueue\<close> nor by the loop of
  \<open>destroy\<close>.
\<close>

theorem queue_always_empty:
  "queue (limiter_run (constructor rpm burst qto t0) ops) = [] \<and>
   getQueueSize (limiter_run (constructor rpm burst qto t0) ops) = 0 \<and>
   queueSize (getStats (limiter_run (constructor rpm burst qto t0) ops)) = 0 \<and>
   resolved (limiter_run (constructor rpm burst qto t0) ops) = []"
proof -
  have "idle_queue (constructor rpm burst qto t0)"
    by (simp add: idle_queue_def constructor_def)
  then have "idle_queue (limiter_run (constructor rpm burst qto t0) ops)"
    by (rule limiter_run_idle)
  then show ?thesis
    by (simp add: idle_queue_def getQueueSize_def getStats_def)
qed

subsection \<open>Refill steps without requests\<close>














section \<open>Properties of the HTTP client\<close>

subsection \<open>Numbers read from headers\<close>










subsection \<open>Server errors\<close>


lemma request_loop_5xx_retry:
  assumes "env (nat attempt) = Responds r" "500 \<le> status r" "attempt < maxR"
  shows "request_loop maxR env attempt =
           (case request_loop maxR env (attempt + 1) of
              (res, evs) \<Rightarrow> (res, TransportEv # SleepEv (calculateRetryDelay attempt) # evs))"
  using assms by (subst request_loop.simps) (simp add: try_body_def transport_events_def)

lemma request_loop_5xx_last:
  assumes "env (nat maxR) = Responds r" "500 \<le> status r"
  shows "request_loop maxR env maxR = (Inl (handleErrorResponse r), [TransportEv])"
  using assms by (subst request_loop.simps) (simp add: try_body_def transport_events_def)




text \<open>The same for any status from 500 on and any \<open>maxRetries\<close>: the transport is called
  \<open>maxRetries + 1\<close> times and the error of the last response is raised.\<close>

lemma server_errors_retried:
  assumes "\<forall>n. \<exists>r. env n = Responds r \<and> 500 \<le> status r" "0 \<le> a" "a \<le> maxR"
  shows "\<exists>r. env (nat maxR) = Responds r \<and>
             fst (request_loop maxR env a) = Inl (handleErrorResponse r) \<and>
             transport_calls (snd (request_loop maxR env a)) = nat (maxR - a + 1)"
  using assms(2,3)
proof (induction "nat (maxR - a)" arbitrary: a)
  case 0
  then have a: "a = maxR" by simp
  from assms(1) obtain r where r: "env (nat maxR) = Responds r" "500 \<le> status r" by blast
  then show ?case
    using request_loop_5xx_last [of env maxR r] a by (auto simp add: transport_calls_def)
next
  case (Suc k)
  then have lt: "a < maxR" by linarith
  from assms(1) obtain r where r: "env (nat a) = Responds r" "500 \<le> status r" by blast
  have "k = nat (maxR - (a + 1))" using Suc.hyps(2) by linarith
  then obtain r' where r': "env (nat maxR) = Responds r'"
    "fst (request_loop maxR env (a + 1)) = Inl (handleErrorResponse r')"
    "transport_calls (snd (request_loop maxR env (a + 1))) = nat (maxR - (a + 1) + 1)"
    using Suc.hyps(1) [of "a + 1"] Suc.prems lt by auto
  have step: "request_loop maxR env a =
      (case request_loop maxR env (a + 1) of
         (res, evs) \<Rightarrow> (res, TransportEv # SleepEv (calculateRetryDelay a) # evs))"
    using r lt by (rule request_loop_5xx_retry)
  have "nat (maxR - (a + 1) + 1) + 1 = nat (maxR - a + 1)" using lt by linarith
  with r' step show ?case
    by (cases "request_loop maxR env (a + 1)") (auto simp add: transport_calls_def)
qed

subsection \<open>Authentication errors\<close>

text \<open>
  Claim C5 says that a response with status 401 raises an \<open>AuthenticationError\<close> on the first
  attempt, with no retry. The \<open>throw\<close> of the 4xx branch is inside the \<open>try\<close> block, so
  the \<open>catch\<close> clause receives the error and asks \<open>isRetryableError\<close>, which answers by
  the message: with the body \<open>{"message": "Session timeout"}\<close> the 401 response is retried
  three times.
\<close>

theorem auth_error_retried_on_timeout_message:
  "request client3 ''GET'' ''/rest/api/3/myself'' \<lparr> retries = None \<rparr> (always resp401_timeout) =
     (Inl (AuthenticationError ''Session timeout'' 401),
      [TransportEv, SleepEv 1000, TransportEv, SleepEv 2000,
       TransportEv, SleepEv 4000, TransportEv])"
  by code_simp

text \<open>Without the words \<open>network\<close> and \<open>timeout\<close> in the message, a 401 or 403 response ends
  the request at once.\<close>

lemma auth_error_not_retried:
  assumes "env (nat attempt) = Responds r" "status r = 401 \<or> status r = 403" "attempt \<le> maxR"
    and "\<not> str_includes (message_or (errorData_of r) ''Authentication failed'') ''network''"
    and "\<not> str_includes (message_or (errorData_of r) ''Authentication failed'') ''timeout''"
  shows "request_loop maxR env attempt =
           (Inl (AuthenticationError (message_or (errorData_of r) ''Authentication failed'')
                   (status r)), [TransportEv])"
  using assms
  by (subst request_loop.simps)
     (auto simp add: try_body_def transport_events_def handleErrorResponse_def Let_def
        isRetryableError_def)

subsection \<open>Rate-limit responses\<close>






section \<open>Properties of the service\<close>

subsection \<open>Token acquisition and transport attempts\<close>

lemma filter_absent: "a \<notin> set xs \<Longrightarrow> filter (\<lambda>e. e = a) xs = []"
  by (induction xs) auto

lemma request_loop_no_acquire: "AcquireEv \<notin> set (snd (request_loop maxR env a))"
proof (induction maxR env a rule: request_loop.induct)
  case (1 maxR env attempt)
  show ?case
    by (subst request_loop.simps)
       (use 1 in \<open>auto simp add: transport_events_def
          split: try_result.splits attempt_outcome.splits prod.splits\<close>)
qed

lemma transport_events_calls: "transport_calls (transport_events out) \<le> 1"
  by (simp add: transport_events_def transport_calls_def split: attempt_outcome.splits)

lemma transport_calls_append: "transport_calls (xs @ ys) = transport_calls xs + transport_calls ys"
  by (simp add: transport_calls_def)

lemma transport_calls_sleep: "transport_calls (SleepEv d # ys) = transport_calls ys"
  by (simp add: transport_calls_def)

lemma request_loop_calls: "transport_calls (snd (request_loop maxR env a)) \<le> nat (maxR + 1 - a)"
proof (induction maxR env a rule: request_loop.induct)
  case (1 maxR env attempt)
  show ?case
  proof (cases "attempt \<le> maxR")
    case False
    then show ?thesis by (subst request_loop.simps) (simp add: transport_calls_def)
  next
    case True
    have one: "transport_calls (transport_events (env (nat attempt))) \<le> 1"
      by (rule transport_events_calls)
    have step: "nat (maxR + 1 - (attempt + 1)) + 1 = nat (maxR + 1 - attempt)"
      using True by simp
    show ?thesis
      apply (subst request_loop.simps)
      using 1 True one step
      apply (auto simp add: transport_calls_append transport_calls_sleep
          split: try_result.splits prod.splits)
      done
  qed
qed

text \<open>
  Claim C1, as stated: every transport attempt of a logical request, the retries too, has
  its own call of \<open>acquireToken\<close> before it. It fails: \<open>getIssue\<close> calls \<open>checkRateLimit\<close>
  once and then \<open>httpClient.get\<close>, whose retry loop never calls the limiter. Against a
  transport that always answers 503 the request makes four transport calls after one
  acquisition, and the limiter built with 100 tokens holds 99 afterwards.
\<close>

theorem retry_without_acquisition_counterexample:
  "snd (fst (getIssue_request client3 (always resp503) ''TEST-1'' 0 (constructor 100 100 None 0))) =
     [AcquireEv, TransportEv, SleepEv 1000, TransportEv, SleepEv 2000, TransportEv,
      SleepEv 4000, TransportEv]
   \<and> \<not> own_acquisition 0
         (snd (fst (getIssue_request client3 (always resp503) ''TEST-1'' 0
                      (constructor 100 100 None 0))))
   \<and> tokens (snd (getIssue_request client3 (always resp503) ''TEST-1'' 0
                    (constructor 100 100 None 0))) = 99"
  by code_simp

text \<open>
  Claim C1, amended. A logical request calls \<open>acquireToken\<close> exactly once, before any
  transport attempt, and leaves the limiter as that one call left it. If the token is
  denied, no transport attempt is made and the request fails with a \<open>RateLimitError\<close>
  carrying the limiter's \<open>retryAfter\<close>. If it is granted, the events that follow are those
  of \<open>httpClient.get\<close>: at most \<open>maxRetries + 1\<close> transport attempts, none of them with a
  token acquisition of its own.
\<close>

theorem one_acquisition_per_request:
  "case getIssue_request cfg env issueIdOrKey now rl of
     ((res, evs), rl') \<Rightarrow>
       rl' = snd (acquireToken now rl) \<and>
       acquisitions evs = 1 \<and>
       (if allowed (fst (acquireToken now rl))
        then evs = AcquireEv #
                     snd (get cfg (''/rest/api/3/issue/'' @ issueIdOrKey) \<lparr> retries = None \<rparr> env) \<and>
             res = fst (get cfg (''/rest/api/3/issue/'' @ issueIdOrKey) \<lparr> retries = None \<rparr> env) \<and>
             transport_calls evs \<le> nat (maxRetries cfg + 1)
        else evs = [AcquireEv] \<and>
             res = Inl (RateLimitError ''Rate limit exceeded''
                          (retryAfter (fst (acquireToken now rl))) None None))"
proof -
  let ?g = "get cfg (''/rest/api/3/issue/'' @ issueIdOrKey) \<lparr> retries = None \<rparr> env"
  have noacq: "AcquireEv \<notin> set (snd ?g)"
    by (simp add: get_def request_def request_loop_no_acquire)
  then have acq: "acquisitions (AcquireEv # snd ?g) = 1"
    by (simp add: acquisitions_def filter_absent)
  have calls: "transport_calls (AcquireEv # snd ?g) \<le> nat (maxRetries cfg + 1)"
    using request_loop_calls [of "maxRetries cfg" _ 0]
    by (simp add: get_def request_def maxRetries_of_def transport_calls_def)
  show ?thesis
    using acq calls
    by (cases "acquireToken now rl"; cases ?g)
       (simp add: getIssue_request_def checkRateLimit_def acquisitions_def)
qed

subsection \<open>Deduplication\<close>

lemma dedup_run_Call_snd:
  "snd (dedup_run s (Call k f # evs)) = snd (dedup_run (snd (deduplicateRequest k f s)) evs)"
  by (simp split: prod.splits)



lemma pending_init: "entries_pending dedup_init"
  by (simp add: entries_pending_def dedup_init_def)




lemma pending_deduplicateRequest:
  assumes "entries_pending s"
  shows "entries_pending (snd (deduplicateRequest k f s))"
proof (cases "requestDeduplicationMap s k")
  case (Some i)
  with assms show ?thesis by (simp add: deduplicateRequest_def)
next
  case None
  show ?thesis
  proof (cases f)
    case (ThrowsSync e)
    with None assms show ?thesis by (simp add: deduplicateRequest_def entries_pending_def)
  next
    case (ReturnsPromise st)
    have old: "i < length (requests s) \<and> req_key (requests s ! i) = k' \<and> \<not> cleaned (requests s ! i)"
      if "requestDeduplicationMap s k' = Some i" for k' i
      using assms that by (simp add: entries_pending_def)
    show ?thesis
      using None ReturnsPromise old
      by (auto simp add: deduplicateRequest_def entries_pending_def nth_append dest: old)
  qed
qed

lemma pending_settle: "entries_pending s \<Longrightarrow> entries_pending (settle i out s)"
  by (auto simp add: entries_pending_def settle_def nth_list_update)

lemma pending_cleanup: "entries_pending s \<Longrightarrow> entries_pending (cleanup i s)"
  by (auto simp add: entries_pending_def cleanup_def nth_list_update split: if_splits)

lemma pending_destroy: "entries_pending (destroyService s)"
  by (simp add: entries_pending_def destroyService_def)

lemma pending_run: "entries_pending s \<Longrightarrow> entries_pending (snd (dedup_run s evs))"
proof (induction evs arbitrary: s)
  case Nil
  then show ?case by simp
next
  case (Cons e evs)
  show ?case
  proof (cases e)
    case (Call k f)
    have "entries_pending (snd (dedup_run (snd (deduplicateRequest k f s)) evs))"
      using Cons.prems by (intro Cons.IH pending_deduplicateRequest)
    with Call show ?thesis by (simp only: dedup_run_Call_snd)
  next
    case (Settle i out)
    with Cons show ?thesis by (simp add: pending_settle)
  next
    case (Cleanup i)
    with Cons show ?thesis by (simp add: pending_cleanup)
  next
    case DestroyService
    with Cons show ?thesis by (simp add: pending_destroy)
  qed
qed










text \<open>
  Claim C9. In every state the service reaches, by whatever calls, settlements, callbacks
  and calls of \<open>destroy\<close>:
  \<^item> an entry of the map belongs to a call for its key whose \<open>finally\<close> callback is still
    to run and whose shared promise has not settled, so an entry never outlives the
    settlement of its shared promise;
  \<^item> when the promise of a wrapped function has settled, fulfilled or rejected, its
    \<open>finally\<close> callback settles the shared promise alike and leaves the key without entry,
    and the next call with that key invokes its function;
  \<^item> a call for a free key whose wrapped function throws fails with what was thrown and
    stores no entry, and the next call with that key invokes its function.
\<close>

theorem dedup_cleanup:
  assumes "s = snd (dedup_run dedup_init history)"
  shows "(\<forall>k i. requestDeduplicationMap s k = Some i \<longrightarrow>
            i < length (requests s) \<and> req_key (requests s ! i) = k \<and>
            \<not> cleaned (requests s ! i) \<and> settlement_of s (Shared i) = None) \<and>
         (\<forall>i out. i < length (requests s) \<and> inner (requests s ! i) = Some out \<and>
                   \<not> cleaned (requests s ! i) \<longrightarrow>
            settlement_of (cleanup i s) (Shared i) = Some out \<and>
            requestDeduplicationMap (cleanup i s) (req_key (requests s ! i)) = None \<and>
            (\<forall>f. invoked (snd (deduplicateRequest (req_key (requests s ! i)) f (cleanup i s))) =
                   invoked (cleanup i s) @ [req_key (requests s ! i)])) \<and>
         (\<forall>k e. requestDeduplicationMap s k = None \<longrightarrow>
            fst (deduplicateRequest k (ThrowsSync e) s) = Failed e \<and>
            requestDeduplicationMap (snd (deduplicateRequest k (ThrowsSync e) s)) k = None \<and>
            (\<forall>f. invoked (snd (deduplicateRequest k f (snd (deduplicateRequest k (ThrowsSync e) s)))) =
                   invoked (snd (deduplicateRequest k (ThrowsSync e) s)) @ [k]))"
proof (intro conjI allI impI)
  have pend: "entries_pending s"
    unfolding assms by (intro pending_run pending_init)
  fix k i
  assume "requestDeduplicationMap s k = Some i"
  with pend show "i < length (requests s)" "req_key (requests s ! i) = k"
    "\<not> cleaned (requests s ! i)" "settlement_of s (Shared i) = None"
    by (simp_all add: entries_pending_def)
next
  fix i out
  assume a: "i < length (requests s) \<and> inner (requests s ! i) = Some out \<and> \<not> cleaned (requests s ! i)"
  then show "settlement_of (cleanup i s) (Shared i) = Some out"
    by (simp add: cleanup_def)
  from a show free: "requestDeduplicationMap (cleanup i s) (req_key (requests s ! i)) = None"
    by (simp add: cleanup_def)
  fix f
  from free show "invoked (snd (deduplicateRequest (req_key (requests s ! i)) f (cleanup i s))) =
                   invoked (cleanup i s) @ [req_key (requests s ! i)]"
    by (cases f) (simp_all add: deduplicateRequest_def)
next
  fix k e
  assume n: "requestDeduplicationMap s k = None"
  then show "fst (deduplicateRequest k (ThrowsSync e) s) = Failed e"
    by (simp add: deduplicateRequest_def)
  from n show free: "requestDeduplicationMap (snd (deduplicateRequest k (ThrowsSync e) s)) k = None"
    by (simp add: deduplicateRequest_def)
  fix f
  from free show "invoked (snd (deduplicateRequest k f (snd (deduplicateRequest k (ThrowsSync e) s)))) =
                   invoked (snd (deduplicateRequest k (ThrowsSync e) s)) @ [k]"
    by (cases f) (simp_all add: deduplicateRequest_def)
qed

theorem dedup_cleanup_witness:
  "inner (requests (snd (dedup_run (dedup_init :: (nat, string) dedup)
            [Call ''getIssue:TEST-1'' (ReturnsPromise None), Settle 0 (RejectedWith ''HTTP 500'')])) ! 0) =
     Some (RejectedWith ''HTTP 500'') \<and>
   settlement_of (cleanup 0 (snd (dedup_run (dedup_init :: (nat, string) dedup)
            [Call ''getIssue:TEST-1'' (ReturnsPromise None), Settle 0 (RejectedWith ''HTTP 500'')])))
       (Shared 0) = Some (RejectedWith ''HTTP 500'') \<and>
   requestDeduplicationMap (cleanup 0 (snd (dedup_run (dedup_init :: (nat, string) dedup)
            [Call ''getIssue:TEST-1'' (ReturnsPromise None), Settle 0 (RejectedWith ''HTTP 500'')])))
       ''getIssue:TEST-1'' = None \<and>
   invoked (snd (deduplicateRequest ''getIssue:TEST-1'' (ReturnsPromise None)
       (cleanup 0 (snd (dedup_run (dedup_init :: (nat, string) dedup)
            [Call ''getIssue:TEST-1'' (ReturnsPromise None), Settle 0 (RejectedWith ''HTTP 500'')]))))) =
     [''getIssue:TEST-1'', ''getIssue:TEST-1'']"
proof -
  let ?s = "snd (dedup_run (dedup_init :: (nat, string) dedup)
            [Call ''getIssue:TEST-1'' (ReturnsPromise None), Settle 0 (RejectedWith ''HTTP 500'')])"
  have a: "0 < length (requests ?s)" "inner (requests ?s ! 0) = Some (RejectedWith ''HTTP 500'')"
    "\<not> cleaned (requests ?s ! 0)" "req_key (requests ?s ! 0) = ''getIssue:TEST-1''"
    by (simp_all add: dedup_init_def deduplicateRequest_def settle_def)
  have inv: "invoked (cleanup 0 ?s) = [''getIssue:TEST-1'']"
    by (simp add: dedup_init_def deduplicateRequest_def settle_def cleanup_def)
  note t = dedup_cleanup [OF refl, of "[Call ''getIssue:TEST-1'' (ReturnsPromise None),
      Settle 0 (RejectedWith ''HTTP 500'')]", THEN conjunct2, THEN conjunct1, rule_format,
      of 0 "RejectedWith ''HTTP 500''", OF conjI [OF a(1) conjI [OF a(2) a(3)]]]
  from t have "settlement_of (cleanup 0 ?s) (Shared 0) = Some (RejectedWith ''HTTP 500'')"
    by (rule conjunct1)
  moreover from t have "requestDeduplicationMap (cleanup 0 ?s) ''getIssue:TEST-1'' = None"
    unfolding a(4) by (rule conjunct1 [OF conjunct2])
  moreover from t have "invoked (snd (deduplicateRequest ''getIssue:TEST-1'' (ReturnsPromise None)
      (cleanup 0 ?s))) = invoked (cleanup 0 ?s) @ [''getIssue:TEST-1'']"
    unfolding a(4) by blast
  ultimately show ?thesis using a(2) inv by simp
qed

end
